theory Spec2Isabelle
  imports Main "HOL-Library.Sublist"
begin

section \<open>FTPSync worker pool: data model\<close>

text \<open>
  The embedding follows \<^verbatim>\<open>ftpsyncworker.py\<close>. Commands, connections and threads are
  objects of the host program; they are represented by natural numbers that stand for their
  identity (the source compares commands with \<^verbatim>\<open>is\<close>). A configuration is any Python
  value; \<open>None\<close> stands for Python's \<^verbatim>\<open>None\<close>. An exception is represented by its text
  \<^verbatim>\<open>str(e)\<close>, the only thing the source reads from it.

  Debug printing only writes to the console, and the text it writes is left out. The calls
  of \<^verbatim>\<open>_debugPrint\<close> are kept where they can fail: \<^verbatim>\<open>RunningCommand._debugPrint\<close>
  concatenates a string with its argument, which raises \<^verbatim>\<open>TypeError\<close> when the argument is
  an exception object and \<^verbatim>\<open>debug\<close> is on. \<^verbatim>\<open>Worker._debugPrint\<close> prints its argument as it
  is, and \<^verbatim>\<open>__commandName\<close> (which calls \<^verbatim>\<open>Types.u\<close> of \<^verbatim>\<open>ftpsynccommon\<close>, a module
  that is not part of the sources at hand) is taken to return a string. The fields
  \<^verbatim>\<open>threads\<close> and \<^verbatim>\<open>index\<close>, which nothing reads, are left out.
\<close>

type_synonym command = nat
type_synonym connection = nat
type_synonym batch = "connection list"
type_synonym config = "nat option"

datatype exn = Exception (str: string)

text \<open>
  What the pool does to the outside world, in the order it does it. Durations of
  \<^verbatim>\<open>sleep\<close> are in tenths of a time unit (\<open>Sleep 15\<close> is \<^verbatim>\<open>sleep(1.5)\<close>). \<open>Acquire\<close>,
  \<open>Release\<close> and \<open>OnFinish\<close> record the calls of \<^verbatim>\<open>semaphore.acquire\<close>,
  \<^verbatim>\<open>semaphore.release\<close> and \<^verbatim>\<open>__onFinish\<close>.
\<close>

datatype effect =
    Sleep nat
  | SetConnection command batch
  | Start nat command
  | Acquire
  | Release
  | OnFinish command

text \<open>The dictionary appended to \<^verbatim>\<open>self.commands\<close> in \<^verbatim>\<open>__run\<close>; the thread object is
  identified by its \<^verbatim>\<open>threadId\<close>.\<close>

record pending =
  cmd_command :: command
  cmd_config :: config
  cmd_index :: nat
  cmd_threadId :: nat

text \<open>
  The state of a \<^verbatim>\<open>Worker\<close>. \<open>makeConfig\<close> (the loader) and \<open>makeConnection\<close> (the
  factory) are the two callbacks stored by the constructor: either may raise, and the factory
  returns a batch of connections or \<^verbatim>\<open>None\<close>. The factory is a stateful capability; it is a
  function of the number of calls made so far (\<open>factoryCalls\<close>) and of the loaded configuration.
  \<open>setConnection\<close> and \<open>start\<close> say what \<^verbatim>\<open>command.setConnection(batch)\<close> and
  \<^verbatim>\<open>thread.start()\<close> raise, if anything. \<open>semaphore\<close> is the counter of the
  \<^verbatim>\<open>BoundedSemaphore\<close>, whose bound is \<open>limit\<close>.
\<close>

record worker =
  limit :: int
  connections :: "batch list"
  commands :: "pending list"
  waitingCommands :: "command list"
  threadId :: nat
  semaphore :: nat
  freeConnections :: "nat list"
  debug :: bool
  makeConnection :: "nat \<Rightarrow> config \<Rightarrow> exn + batch option"
  makeConfig :: "config \<Rightarrow> exn + config"
  setConnection :: "command \<Rightarrow> batch \<Rightarrow> exn option"
  start :: "nat \<Rightarrow> command \<Rightarrow> exn option"
  factoryCalls :: nat
  effects :: "effect list"

text \<open>A call returns, raises, or blocks for ever in \<^verbatim>\<open>semaphore.acquire()\<close>; each time with
  the state it leaves behind.\<close>

datatype 'a outcome = Returns 'a | Raises exn 'a | Blocks 'a

fun state_of :: "'a outcome \<Rightarrow> 'a" where
  "state_of (Returns w) = w"
| "state_of (Raises e w) = w"
| "state_of (Blocks w) = w"

subsection \<open>Strings\<close>

text \<open>\<^verbatim>\<open>str.lower()\<close> on ASCII letters, and \<^verbatim>\<open>str.find(sub)\<close>: the lowest index at which
  \<open>sub\<close> occurs, or \<open>-1\<close>.\<close>

definition lower_char :: "char \<Rightarrow> char" where
  "lower_char c =
     (let n = (of_char c :: nat) in if 65 \<le> n \<and> n \<le> 90 then char_of (n + 32) else c)"

definition lower :: "string \<Rightarrow> string" where
  "lower s = map lower_char s"

fun find_at :: "string \<Rightarrow> string \<Rightarrow> int \<Rightarrow> int" where
  "find_at sub [] i = (if sub = [] then i else - 1)"
| "find_at sub (x # xs) i = (if prefix sub (x # xs) then i else find_at sub xs (i + 1))"

definition str_find :: "string \<Rightarrow> string \<Rightarrow> int" where
  "str_find s sub = find_at sub s 0"

subsection \<open>The constructor and the small operations\<close>

text \<open>\<^verbatim>\<open>threading.BoundedSemaphore(limit)\<close> raises \<^verbatim>\<open>ValueError\<close> for a negative value.\<close>

definition fresh ::
  "int \<Rightarrow> (nat \<Rightarrow> config \<Rightarrow> exn + batch option) \<Rightarrow> (config \<Rightarrow> exn + config) \<Rightarrow>
   (command \<Rightarrow> batch \<Rightarrow> exn option) \<Rightarrow> (nat \<Rightarrow> command \<Rightarrow> exn option) \<Rightarrow> worker" where
  "fresh lim factory loader setc st =
     \<lparr> limit = lim, connections = [], commands = [], waitingCommands = [],
       threadId = 0, semaphore = nat lim, freeConnections = [],
       debug = False, makeConnection = factory, makeConfig = loader,
       setConnection = setc, start = st,
       factoryCalls = 0, effects = [] \<rparr>"


definition emit :: "effect \<Rightarrow> worker \<Rightarrow> worker" where
  "emit x w = w\<lparr>effects := effects w @ [x]\<rparr>"

definition enableDebug :: "worker \<Rightarrow> worker" where
  "enableDebug w = w\<lparr>debug := True\<rparr>"

definition disableDebug :: "worker \<Rightarrow> worker" where
  "disableDebug w = w\<lparr>debug := False\<rparr>"

definition setConnectionFactory ::
  "(nat \<Rightarrow> config \<Rightarrow> exn + batch option) \<Rightarrow> worker \<Rightarrow> worker" where
  "setConnectionFactory factory w = w\<lparr>makeConnection := factory\<rparr>"

definition addConnection :: "batch \<Rightarrow> worker \<Rightarrow> worker" where
  "addConnection conns w = w\<lparr>connections := connections w @ [conns]\<rparr>"

definition isEmpty :: "worker \<Rightarrow> bool" where
  "isEmpty w \<longleftrightarrow> length (commands w) = 0 \<and> length (waitingCommands w) = 0"

definition waitCommand :: "command \<Rightarrow> worker \<Rightarrow> worker" where
  "waitCommand c w = w\<lparr>waitingCommands := waitingCommands w @ [c]\<rparr>"

subsection \<open>fillConnection\<close>

text \<open>The call \<^verbatim>\<open>self.makeConnection(self.makeConfig(config), None, False)\<close>: the loader runs
  first, and the factory is called only when the loader returned.\<close>

definition call_factory :: "config \<Rightarrow> worker \<Rightarrow> (exn + batch option) \<times> worker" where
  "call_factory cfg w =
     (case makeConfig w cfg of
        Inl e \<Rightarrow> (Inl e, w)
      | Inr loaded \<Rightarrow>
          (makeConnection w (factoryCalls w) loaded, w\<lparr>factoryCalls := factoryCalls w + 1\<rparr>))"

definition too_many :: "exn \<Rightarrow> bool" where
  "too_many e \<longleftrightarrow> str_find (lower (str e)) ''too many connections'' \<noteq> - 1"

definition fillConnection :: "config \<Rightarrow> worker \<Rightarrow> worker outcome" where
  "fillConnection cfg w =
     (if int (length (connections w)) \<le> limit w then
        (case call_factory cfg w of
           (Inl e, w1) \<Rightarrow>
             if too_many e then Returns (emit (Sleep 15) w1) else Raises e w1
         | (Inr connection, w1) \<Rightarrow>
             (case connection of
                None \<Rightarrow> Returns w1
              | Some conns \<Rightarrow>
                  if length conns > 0 then
                    (let w2 = addConnection conns w1
                     in Returns (w2\<lparr>freeConnections :=
                                     freeConnections w2 @ [length (connections w2)]\<rparr>))
                  else Returns w1))
      else Returns w)"

subsection \<open>Dispatch: \<^verbatim>\<open>__run\<close> and \<^verbatim>\<open>__onFinish\<close>\<close>

text \<open>The busy-wait of \<^verbatim>\<open>__run\<close>:
  \<^verbatim>\<open>while len(self.freeConnections) == 0: sleep(0.1); self.fillConnection(config)\<close>.
  Nothing bounds it in the source, so the model gives it fuel: \<open>None\<close> means that the loop
  was still waiting after \<open>fuel\<close> rounds.\<close>

fun wait_free :: "nat \<Rightarrow> config \<Rightarrow> worker \<Rightarrow> worker outcome option" where
  "wait_free 0 cfg w =
     (if length (freeConnections w) = 0 then None else Some (Returns w))"
| "wait_free (Suc fuel) cfg w =
     (if length (freeConnections w) = 0 then
        (case fillConnection cfg (emit (Sleep 1) w) of
           Returns w1 \<Rightarrow> wait_free fuel cfg w1
         | Raises e w1 \<Rightarrow> Some (Raises e w1)
         | Blocks w1 \<Rightarrow> Some (Blocks w1))
      else Some (Returns w))"

text \<open>Python's \<^verbatim>\<open>xs[i]\<close>: a negative index counts from the end, and an index out of range
  raises \<^verbatim>\<open>IndexError\<close>.\<close>

definition getitem :: "'a list \<Rightarrow> int \<Rightarrow> exn + 'a" where
  "getitem xs i =
     (let n = int (length xs); j = (if i < 0 then i + n else i)
      in if 0 \<le> j \<and> j < n then Inr (xs ! nat j)
         else Inl (Exception ''list index out of range''))"

text \<open>\<^verbatim>\<open>semaphore.acquire()\<close> returns only when the counter is positive; \<open>None\<close> is the
  call that blocks. \<^verbatim>\<open>BoundedSemaphore.release()\<close> raises \<^verbatim>\<open>ValueError\<close> when the counter
  is already at its initial value.\<close>

definition acquire :: "worker \<Rightarrow> worker option" where
  "acquire w =
     (if semaphore w = 0 then None
      else Some (emit Acquire (w\<lparr>semaphore := semaphore w - 1\<rparr>)))"

definition release :: "worker \<Rightarrow> exn + worker" where
  "release w =
     (if limit w \<le> int (semaphore w) then Inl (Exception ''Semaphore released too many times'')
      else Inr (emit Release (w\<lparr>semaphore := semaphore w + 1\<rparr>)))"

text \<open>The \<^verbatim>\<open>finally\<close> clause of \<^verbatim>\<open>__run\<close>, entered with the exception that is in flight,
  if any.\<close>

definition finally_release :: "exn option \<Rightarrow> worker \<Rightarrow> worker outcome" where
  "finally_release inflight w =
     (case release w of
        Inl e \<Rightarrow> Raises e w
      | Inr w1 \<Rightarrow> (case inflight of None \<Rightarrow> Returns w1 | Some e \<Rightarrow> Raises e w1))"

text \<open>The \<^verbatim>\<open>try\<close> block of \<^verbatim>\<open>__run\<close> after the semaphore has been acquired.\<close>

definition dispatch :: "nat \<Rightarrow> command \<Rightarrow> config \<Rightarrow> worker \<Rightarrow> worker outcome option" where
  "dispatch fuel c cfg w =
     (let w1 = w\<lparr>threadId := threadId w + 1\<rparr> in
      case fillConnection cfg w1 of
        Raises e w2 \<Rightarrow> Some (Raises e w2)
      | Blocks w2 \<Rightarrow> Some (Blocks w2)
      | Returns w2 \<Rightarrow>
          (case wait_free fuel cfg w2 of
             None \<Rightarrow> None
           | Some (Raises e w3) \<Rightarrow> Some (Raises e w3)
           | Some (Blocks w3) \<Rightarrow> Some (Blocks w3)
           | Some (Returns w3) \<Rightarrow>
               (let index = last (freeConnections w3);
                    w4 = w3\<lparr>freeConnections := butlast (freeConnections w3)\<rparr>
                in case getitem (connections w4) (int index - 1) of
                     Inl e \<Rightarrow> Some (Raises e w4)
                   | Inr conns \<Rightarrow>
                       (case setConnection w4 c conns of
                          Some e \<Rightarrow> Some (Raises e w4)
                        | None \<Rightarrow>
                            (let w5 = emit (SetConnection c conns) w4;
                                 w6 = w5\<lparr>commands := commands w5 @
                                        [\<lparr>cmd_command = c, cmd_config = cfg,
                                          cmd_index = index, cmd_threadId = threadId w5\<rparr>]\<rparr>
                             in case start w6 (threadId w6) c of
                                  Some e \<Rightarrow> Some (Raises e w6)
                                | None \<Rightarrow> Some (Returns (emit (Start (threadId w6) c) w6)))))))"

text \<open>The loop of \<^verbatim>\<open>__onFinish\<close>, \<^verbatim>\<open>for cmd in self.commands\<close>, removes from the list it
  walks. Python's list iterator keeps an index \<open>i\<close>: it yields \<open>commands[i]\<close> and advances
  while \<open>i < len(commands)\<close>, so the element that slides into a removed slot is skipped.
  \<^verbatim>\<open>list.remove\<close> deletes the first element equal to its argument.\<close>

function kick :: "nat \<Rightarrow> command \<Rightarrow> config \<Rightarrow> worker \<Rightarrow> config \<times> worker" where
  "kick i c cfg w =
     (if i < length (commands w) then
        (let cmd = commands w ! i in
         if cmd_command cmd = c then
           kick (i + 1) c (cmd_config cmd)
             (w\<lparr>freeConnections := freeConnections w @ [cmd_index cmd],
                commands := remove1 cmd (commands w)\<rparr>)
         else kick (i + 1) c cfg w)
      else (cfg, w))"
  by pat_completeness auto
termination
  by (relation "measure (\<lambda>(i, c, cfg, w). length (commands w) - i)")
     (auto simp: length_remove1)

declare kick.simps [simp del]

text \<open>\<^verbatim>\<open>__run\<close> and \<^verbatim>\<open>__onFinish\<close> call each other: \<^verbatim>\<open>__run\<close> calls the finish callback in
  its \<^verbatim>\<open>except\<close> clause, still holding the semaphore, and \<^verbatim>\<open>__onFinish\<close> starts the command
  it pops from the wait queue. An exception raised inside the \<^verbatim>\<open>except\<close> clause replaces the
  one being handled.\<close>

function run :: "nat \<Rightarrow> command \<Rightarrow> config \<Rightarrow> worker \<Rightarrow> worker outcome option"
  and onFinish :: "nat \<Rightarrow> command \<Rightarrow> worker \<Rightarrow> worker outcome option" where
  "run fuel c cfg w =
     (case acquire w of
        None \<Rightarrow> Some (Blocks w)
      | Some w1 \<Rightarrow>
          (case dispatch fuel c cfg w1 of
             None \<Rightarrow> None
           | Some (Returns w2) \<Rightarrow> Some (finally_release None w2)
           | Some (Blocks w2) \<Rightarrow> Some (Blocks w2)
           | Some (Raises e w2) \<Rightarrow>
               (case onFinish fuel c w2 of
                  None \<Rightarrow> None
                | Some (Returns w3) \<Rightarrow> Some (finally_release (Some e) w3)
                | Some (Raises e' w3) \<Rightarrow> Some (finally_release (Some e') w3)
                | Some (Blocks w3) \<Rightarrow> Some (Blocks w3))))"
| "onFinish fuel c w =
     (let k = kick 0 c None (emit (OnFinish c) w); config = fst k; w1 = snd k in
      if length (waitingCommands w1) > 0 then
        run fuel (last (waitingCommands w1)) config
          (w1\<lparr>waitingCommands := butlast (waitingCommands w1)\<rparr>)
      else Some (Returns w1))"
  by pat_completeness auto

subsection \<open>addCommand\<close>

definition addCommand :: "nat \<Rightarrow> command \<Rightarrow> config \<Rightarrow> worker \<Rightarrow> worker outcome option" where
  "addCommand fuel c cfg w =
     (if limit w \<le> int (length (commands w)) then Some (Returns (waitCommand c w))
      else run fuel c cfg w)"

subsection \<open>Histories of the pool\<close>

text \<open>The commands whose executor thread \<^verbatim>\<open>thread.start()\<close> has started, oldest first.\<close>

fun starts :: "effect list \<Rightarrow> command list" where
  "starts [] = []"
| "starts (Start t c # es) = c # starts es"
| "starts (e # es) = starts es"

definition started :: "worker \<Rightarrow> command list" where
  "started w = starts (effects w)"

text \<open>
  A history is a sequence of calls of \<^verbatim>\<open>addCommand\<close> by the client and of finish callbacks
  by executor threads, each taken as one step. An executor thread calls
  \<^verbatim>\<open>onFinish(command)\<close> once, at the end of its \<^verbatim>\<open>run\<close>; so \<open>Finish c\<close> can happen only
  while more threads have been started for \<open>c\<close> than have finished. The second component of
  the state lists the commands of the threads that have finished. A step that raises or
  blocks leaves the pool in the state it had reached.
\<close>

datatype event = AddCommand command config | Finish command

fun step :: "nat \<Rightarrow> event \<Rightarrow> worker \<times> command list \<Rightarrow> (worker \<times> command list) option" where
  "step fuel (AddCommand c cfg) (w, fin) =
     map_option (\<lambda>r. (state_of r, fin)) (addCommand fuel c cfg w)"
| "step fuel (Finish c) (w, fin) =
     (if count_list fin c < count_list (started w) c
      then map_option (\<lambda>r. (state_of r, c # fin)) (onFinish fuel c w)
      else None)"

fun exec :: "nat \<Rightarrow> event list \<Rightarrow> worker \<times> command list \<Rightarrow> (worker \<times> command list) option" where
  "exec fuel [] s = Some s"
| "exec fuel (e # es) s =
     (case step fuel e s of None \<Rightarrow> None | Some s' \<Rightarrow> exec fuel es s')"


section \<open>The command executor\<close>

text \<open>
  A command is an object of the host program. \<open>execute b k\<close> is what the \<open>k\<close>-th call of
  \<^verbatim>\<open>command.execute()\<close> raises, if anything, and \<open>isRunning b k\<close> is the answer of the
  \<open>k\<close>-th call of \<^verbatim>\<open>command.isRunning()\<close> (both counted from 0).
\<close>

record behaviour =
  execute :: "nat \<Rightarrow> exn option"
  isRunning :: "nat \<Rightarrow> bool"

datatype thread_event = Execute | Poll | Nap | Callback

text \<open>The loop \<^verbatim>\<open>while self.command.isRunning(): sleep(0.5)\<close>, started at the \<open>k\<close>-th call of
  \<^verbatim>\<open>isRunning\<close>: the number of the call that answers \<^verbatim>\<open>False\<close>, and no value when every
  call answers \<^verbatim>\<open>True\<close>.\<close>

partial_function (option) poll :: "(nat \<Rightarrow> bool) \<Rightarrow> nat \<Rightarrow> nat option" where
  "poll running k = (if running k then poll running (k + 1) else Some k)"

declare poll.simps [code]

text \<open>The exception of \<^verbatim>\<open>"[command {0}]".format(self.id) + message\<close> when \<^verbatim>\<open>message\<close> is an
  exception object; its text depends on the Python version and on the class of the
  exception, and nothing reads it.\<close>

definition TypeError :: exn where
  "TypeError = Exception ''can only concatenate str to str''"

text \<open>\<^verbatim>\<open>RunningCommand.run\<close>, with the trace of what the thread did and the outcome of the
  thread. In the \<^verbatim>\<open>except\<close> clause \<^verbatim>\<open>self._debugPrint(e)\<close> comes before the retry: with
  \<^verbatim>\<open>debug\<close> on it raises, and the clause is left before the second
  \<^verbatim>\<open>self.command.execute()\<close>. The retry is not guarded, so its exception leaves \<^verbatim>\<open>run\<close>
  after the \<^verbatim>\<open>finally\<close> clause, unless the callback itself raises.\<close>

definition RunningCommand_run ::
  "bool \<Rightarrow> behaviour \<Rightarrow> command \<Rightarrow> (command \<Rightarrow> 'w \<Rightarrow> 'w outcome option) \<Rightarrow> 'w \<Rightarrow>
   (thread_event list \<times> 'w outcome) option" where
  "RunningCommand_run dbg b c callback w =
     (let attempt = (case execute b 0 of
                       None \<Rightarrow> ([Execute], None)
                     | Some e \<Rightarrow>
                         if dbg then ([Execute], Some TypeError)
                         else ([Execute, Execute], execute b 1))
      in case poll (isRunning b) 0 of
           None \<Rightarrow> None
         | Some n \<Rightarrow>
             (let trace = fst attempt @ concat (replicate n [Poll, Nap]) @ [Poll, Callback]
              in case callback c w of
                   None \<Rightarrow> None
                 | Some (Returns w1) \<Rightarrow>
                     Some (trace, case snd attempt of None \<Rightarrow> Returns w1
                                                     | Some e \<Rightarrow> Raises e w1)
                 | Some (Raises e w1) \<Rightarrow> Some (trace, Raises e w1)
                 | Some (Blocks w1) \<Rightarrow> Some (trace, Blocks w1)))"

subsection \<open>Example pools\<close>

text \<open>A pool whose loader is the identity, whose commands and threads never fail, and
  whose factory is \<open>factory\<close>; and four factories: one that opens one connection per call,
  one that always fails with the given text, one that returns the given batch, and one that
  opens a connection at its first call and fails with the given text afterwards.\<close>

definition pool_of :: "int \<Rightarrow> (nat \<Rightarrow> config \<Rightarrow> exn + batch option) \<Rightarrow> worker" where
  "pool_of lim factory = fresh lim factory Inr (\<lambda>c conns. None) (\<lambda>t c. None)"

definition one_each :: "nat \<Rightarrow> config \<Rightarrow> exn + batch option" where
  "one_each n cfg = Inr (Some [n])"

definition failing :: "string \<Rightarrow> nat \<Rightarrow> config \<Rightarrow> exn + batch option" where
  "failing msg n cfg = Inl (Exception msg)"

definition giving :: "batch \<Rightarrow> nat \<Rightarrow> config \<Rightarrow> exn + batch option" where
  "giving conns n cfg = Inr (Some conns)"

definition once :: "string \<Rightarrow> nat \<Rightarrow> config \<Rightarrow> exn + batch option" where
  "once msg n cfg = (if n = 0 then Inr (Some [0]) else Inl (Exception msg))"

subsection \<open>Frames\<close>


text \<open>\<open>kept\<close>: the fields that filling the connection pool never touches; \<open>fixed\<close>: the
  fields that nothing in the pool changes.\<close>

definition kept :: "worker \<Rightarrow> worker \<Rightarrow> bool" where
  "kept w w' \<longleftrightarrow>
     limit w' = limit w \<and> commands w' = commands w \<and>
     waitingCommands w' = waitingCommands w \<and> threadId w' = threadId w \<and>
     semaphore w' = semaphore w \<and> started w' = started w \<and>
     makeConnection w' = makeConnection w \<and> makeConfig w' = makeConfig w \<and>
     setConnection w' = setConnection w \<and> start w' = start w"

definition fixed :: "worker \<Rightarrow> worker \<Rightarrow> bool" where
  "fixed w w' \<longleftrightarrow>
     limit w' = limit w \<and> makeConnection w' = makeConnection w \<and>
     makeConfig w' = makeConfig w \<and> setConnection w' = setConnection w \<and> start w' = start w"

subsection \<open>What a dispatch chain leaves behind\<close>




section \<open>Frame properties\<close>

lemma starts_append [simp]: "starts (xs @ ys) = starts xs @ starts ys"
  by (induction xs rule: starts.induct) auto

lemma kept_refl [simp]: "kept w w"
  by (simp add: kept_def)

lemma kept_trans: "kept w w1 \<Longrightarrow> kept w1 w2 \<Longrightarrow> kept w w2"
  by (simp add: kept_def)

lemma kept_sleep [simp]: "kept w (emit (Sleep n) w)"
  by (simp add: kept_def emit_def started_def)

lemma fillConnection_kept: "kept w (state_of (fillConnection cfg w))"
  by (auto simp: fillConnection_def call_factory_def emit_def addConnection_def Let_def
                 kept_def started_def
           split: sum.splits option.splits prod.splits)

lemma fillConnection_not_Blocks: "fillConnection cfg w \<noteq> Blocks w'"
  by (auto simp: fillConnection_def call_factory_def Let_def
           split: sum.splits option.splits prod.splits)

lemma wait_free_kept:
  "wait_free fuel cfg w = Some r \<Longrightarrow> kept w (state_of r) \<and> (\<forall>w'. r \<noteq> Blocks w')"
proof (induction fuel arbitrary: w)
  case 0
  then show ?case by (auto split: if_splits)
next
  case (Suc fuel)
  show ?case
  proof (cases "length (freeConnections w) = 0")
    case False
    with Suc.prems show ?thesis by auto
  next
    case True
    define f where "f = fillConnection cfg (emit (Sleep 1) w)"
    have k: "kept w (state_of f)"
      unfolding f_def by (rule kept_trans[OF kept_sleep fillConnection_kept])
    from Suc.prems True
    have r: "(case f of Returns w1 \<Rightarrow> wait_free fuel cfg w1
              | Raises e w1 \<Rightarrow> Some (Raises e w1) | Blocks w1 \<Rightarrow> Some (Blocks w1)) = Some r"
      by (simp add: f_def)
    show ?thesis
    proof (cases f)
      case (Returns w1)
      with r have "wait_free fuel cfg w1 = Some r" by simp
      from Suc.IH[OF this] k Returns show ?thesis by (auto intro: kept_trans)
    next
      case (Raises e w1)
      with r k show ?thesis by auto
    next
      case (Blocks w1)
      with fillConnection_not_Blocks show ?thesis by (simp add: f_def)
    qed
  qed
qed


lemma dispatch_result:
  assumes "dispatch fuel c cfg w = Some r"
  shows "fixed w (state_of r) \<and> waitingCommands (state_of r) = waitingCommands w \<and>
         semaphore (state_of r) = semaphore w \<and>
         (case r of
            Returns w' \<Rightarrow> started w' = started w @ [c] \<and>
              (\<exists>p. commands w' = commands w @ [p] \<and> cmd_command p = c \<and> cmd_config p = cfg)
          | Raises e w' \<Rightarrow> started w' = started w \<and>
              (commands w' = commands w \<or>
               (\<exists>p. commands w' = commands w @ [p] \<and> cmd_command p = c))
          | Blocks w' \<Rightarrow> False)"
proof -
  define w1 where "w1 = w\<lparr>threadId := threadId w + 1\<rparr>"
  define f where "f = fillConnection cfg w1"
  have k1: "kept w1 (state_of f)" unfolding f_def by (rule fillConnection_kept)
  have w1: "fixed w w1" "waitingCommands w1 = waitingCommands w" "semaphore w1 = semaphore w"
    "started w1 = started w" "commands w1 = commands w"
    by (simp_all add: w1_def fixed_def started_def)
  show ?thesis
  proof (cases f)
    case (Raises e w2)
    with assms have "r = Raises e w2" by (simp add: dispatch_def Let_def f_def w1_def)
    with k1 Raises w1 show ?thesis by (simp add: kept_def fixed_def)
  next
    case (Blocks w2)
    with fillConnection_not_Blocks show ?thesis by (simp add: f_def)
  next
    case (Returns w2)
    show ?thesis
    proof (cases "wait_free fuel cfg w2")
      case None
      with assms Returns show ?thesis by (simp add: dispatch_def Let_def f_def w1_def)
    next
      case (Some r2)
      from wait_free_kept[OF Some] have k2: "kept w2 (state_of r2)" and nb: "\<forall>w'. r2 \<noteq> Blocks w'"
        by simp_all
      from k1 Returns k2 have k: "kept w1 (state_of r2)" by (auto intro: kept_trans)
      show ?thesis
      proof (cases r2)
        case (Blocks w3)
        with nb show ?thesis by simp
      next
        case (Raises e w3)
        with assms Returns Some have "r = Raises e w3"
          by (simp add: dispatch_def Let_def f_def w1_def)
        with k Raises w1 show ?thesis by (simp add: kept_def fixed_def)
      next
        case r2: (Returns w3)
        define index where "index = last (freeConnections w3)"
        define w4 where "w4 = w3\<lparr>freeConnections := butlast (freeConnections w3)\<rparr>"
        have k4: "kept w1 w4" using k r2 by (simp add: kept_def w4_def started_def)
        from assms Returns Some r2
        have r: "r = (case getitem (connections w4) (int index - 1) of
                     Inl e \<Rightarrow> Raises e w4
                   | Inr conns \<Rightarrow>
                       (case setConnection w4 c conns of
                          Some e \<Rightarrow> Raises e w4
                        | None \<Rightarrow>
                            (let w5 = emit (SetConnection c conns) w4;
                                 w6 = w5\<lparr>commands := commands w5 @
                                        [\<lparr>cmd_command = c, cmd_config = cfg,
                                          cmd_index = index, cmd_threadId = threadId w5\<rparr>]\<rparr>
                             in case start w6 (threadId w6) c of
                                  Some e \<Rightarrow> Raises e w6
                                | None \<Rightarrow> Returns (emit (Start (threadId w6) c) w6))))"
          by (simp add: dispatch_def Let_def f_def w1_def index_def w4_def
                   split: sum.splits option.splits)
        show ?thesis
          using k4 w1 unfolding r
          by (auto simp: kept_def fixed_def Let_def emit_def started_def
                   split: sum.splits option.splits)
      qed
    qed
  qed
qed


lemma kick_stop: "\<not> i < length (commands w) \<Longrightarrow> kick i c cfg w = (cfg, w)"
  by (subst kick.simps) simp

lemma kick_match:
  "i < length (commands w) \<Longrightarrow> cmd_command (commands w ! i) = c \<Longrightarrow>
   kick i c cfg w =
     kick (i + 1) c (cmd_config (commands w ! i))
       (w\<lparr>freeConnections := freeConnections w @ [cmd_index (commands w ! i)],
          commands := remove1 (commands w ! i) (commands w)\<rparr>)"
  by (subst kick.simps) (simp add: Let_def)

lemma kick_skip:
  "i < length (commands w) \<Longrightarrow> cmd_command (commands w ! i) \<noteq> c \<Longrightarrow>
   kick i c cfg w = kick (i + 1) c cfg w"
  by (subst kick.simps) (simp add: Let_def)

lemma kick_frame:
  "fixed w (snd (kick i c cfg w)) \<and>
   waitingCommands (snd (kick i c cfg w)) = waitingCommands w \<and>
   semaphore (snd (kick i c cfg w)) = semaphore w \<and>
   effects (snd (kick i c cfg w)) = effects w \<and>
   threadId (snd (kick i c cfg w)) = threadId w \<and>
   connections (snd (kick i c cfg w)) = connections w"
proof (induction i c cfg w rule: kick.induct)
  case (1 i c cfg w)
  show ?case
  proof (cases "i < length (commands w)")
    case False
    then show ?thesis by (simp add: kick_stop fixed_def)
  next
    case lt: True
    show ?thesis
    proof (cases "cmd_command (commands w ! i) = c")
      case True
      from "1.IH"(1)[OF lt refl True] show ?thesis
        by (simp add: kick_match[OF lt True] fixed_def)
    next
      case False
      from "1.IH"(2)[OF lt refl False] show ?thesis
        by (simp add: kick_skip[OF lt False])
    qed
  qed
qed



lemma kick_no_match:
  "\<forall>j. i \<le> j \<and> j < length (commands w) \<longrightarrow> cmd_command (commands w ! j) \<noteq> c \<Longrightarrow>
   kick i c cfg w = (cfg, w)"
proof (induction i c cfg w rule: kick.induct)
  case (1 i c cfg w)
  show ?case
  proof (cases "i < length (commands w)")
    case False
    then show ?thesis by (simp add: kick_stop)
  next
    case lt: True
    with "1.prems" have ne: "cmd_command (commands w ! i) \<noteq> c" by auto
    have "kick (i + 1) c cfg w = (cfg, w)"
      using "1.IH"(2)[OF lt refl ne] "1.prems" by auto
    then show ?thesis by (simp add: kick_skip[OF lt ne])
  qed
qed


lemma acquire_frame:
  "acquire w = Some w1 \<Longrightarrow>
   fixed w w1 \<and> waitingCommands w1 = waitingCommands w \<and> commands w1 = commands w \<and>
   started w1 = started w \<and> Suc (semaphore w1) = semaphore w"
  by (auto simp: acquire_def emit_def fixed_def started_def split: if_splits)

termination run
proof (relation "measure (\<lambda>x. case x of
              Inl (fuel, c, cfg, w) \<Rightarrow> 2 * length (waitingCommands w) + 2
            | Inr (fuel, c, w) \<Rightarrow> 2 * length (waitingCommands w) + 1)", goal_cases)
  case 1
  show ?case by simp
next
  case (2 fuel c cfg w w1 r e w2)
  then show ?case
    using acquire_frame[of w w1] dispatch_result[of fuel c cfg w1 r] by simp
next
  case (3 fuel c w k config w1)
  then show ?case
    using kick_frame[of "emit (OnFinish c) w" 0 c None]
    by (cases "waitingCommands w1") (auto simp: emit_def)
qed

declare run.simps [simp del] onFinish.simps [simp del]

lemma fillConnection_Returns_kept: "fillConnection cfg w = Returns w' \<Longrightarrow> kept w w'"
  using fillConnection_kept[of w cfg] by simp

lemma wait_free_Returns_kept: "wait_free fuel cfg w = Some (Returns w') \<Longrightarrow> kept w w'"
  using wait_free_kept[of fuel cfg w "Returns w'"] by simp

lemma dispatch_Returns:
  assumes "dispatch fuel c cfg w = Some (Returns w')"
  shows "\<exists>p conns es. commands w' = commands w @ [p] \<and> cmd_command p = c \<and> cmd_config p = cfg \<and>
           getitem (connections w') (int (cmd_index p) - 1) = Inr conns \<and>
           effects w' = es @ [SetConnection c conns, Start (cmd_threadId p) c] \<and>
           waitingCommands w' = waitingCommands w"
  using assms unfolding dispatch_def Let_def
  by (auto simp: emit_def kept_def split: outcome.splits option.splits sum.splits
           dest!: fillConnection_Returns_kept wait_free_Returns_kept)

lemma run_Returns:
  assumes "run fuel c cfg w = Some (Returns w')"
  shows "\<exists>w1 w2. acquire w = Some w1 \<and> dispatch fuel c cfg w1 = Some (Returns w2) \<and>
           release w2 = Inr w'"
  using assms
  by (subst (asm) run.simps)
     (auto simp: finally_release_def split: outcome.splits option.splits sum.splits)

lemma release_Inr:
  "release w = Inr w' \<Longrightarrow>
   w' = w\<lparr>semaphore := semaphore w + 1, effects := effects w @ [Release]\<rparr>"
  by (auto simp: release_def emit_def split: if_splits)

lemma acquire_Some:
  "acquire w = Some w' \<Longrightarrow>
   w' = w\<lparr>semaphore := semaphore w - 1, effects := effects w @ [Acquire]\<rparr>"
  by (auto simp: acquire_def emit_def split: if_splits)

lemma run_Returns_record:
  assumes "run fuel c cfg w = Some (Returns w')"
  shows "\<exists>p conns es. commands w' = commands w @ [p] \<and> cmd_command p = c \<and> cmd_config p = cfg \<and>
           getitem (connections w') (int (cmd_index p) - 1) = Inr conns \<and>
           effects w' = es @ [SetConnection c conns, Start (cmd_threadId p) c, Release] \<and>
           waitingCommands w' = waitingCommands w"
proof -
  from run_Returns[OF assms] obtain w1 w2 where
    a: "acquire w = Some w1" and d: "dispatch fuel c cfg w1 = Some (Returns w2)"
    and r: "release w2 = Inr w'" by blast
  from dispatch_Returns[OF d] obtain p conns es where
    p: "commands w2 = commands w1 @ [p]" "cmd_command p = c" "cmd_config p = cfg"
       "getitem (connections w2) (int (cmd_index p) - 1) = Inr conns"
       "effects w2 = es @ [SetConnection c conns, Start (cmd_threadId p) c]"
       "waitingCommands w2 = waitingCommands w1" by blast
  from acquire_Some[OF a] release_Inr[OF r] p show ?thesis by simp
qed


lemma onFinish_unfold:
  "onFinish fuel c w =
     (if waitingCommands w = [] then Some (Returns (snd (kick 0 c None (emit (OnFinish c) w))))
      else run fuel (last (waitingCommands w)) (fst (kick 0 c None (emit (OnFinish c) w)))
             ((snd (kick 0 c None (emit (OnFinish c) w)))
                \<lparr>waitingCommands := butlast (waitingCommands w)\<rparr>))"
  using kick_frame[of "emit (OnFinish c) w" 0 c None]
  by (subst onFinish.simps) (simp add: Let_def emit_def)

section \<open>Dispatch chains and the invariant of histories\<close>
















section \<open>The gate\<close>

text \<open>
  In a pool whose semaphore is within its bound, a call of \<^verbatim>\<open>__run\<close> or \<^verbatim>\<open>__onFinish\<close> that
  comes back, by returning or by raising, leaves the semaphore as it found it. When the
  dispatch raises, what \<^verbatim>\<open>__run\<close> does is decided by the finish callback it calls in its
  \<^verbatim>\<open>except\<close> clause: if the callback returns the exception of the dispatch is re-raised, if
  the callback raises its exception is the one that leaves \<^verbatim>\<open>__run\<close>, in both cases after the
  release; if the callback blocks, so does \<^verbatim>\<open>__run\<close>, and nothing is released.
\<close>

lemma finally_release_gate:
  assumes "int (semaphore w) < limit w"
  shows "finally_release x w =
           (case x of None \<Rightarrow> Returns (emit Release (w\<lparr>semaphore := semaphore w + 1\<rparr>))
                    | Some e \<Rightarrow> Raises e (emit Release (w\<lparr>semaphore := semaphore w + 1\<rparr>)))"
  using assms by (simp add: finally_release_def release_def split: option.splits)

lemma gate_restored:
  "(\<forall>r. run fuel c cfg w = Some r \<longrightarrow> int (semaphore w) \<le> limit w \<longrightarrow>
        (\<forall>v. r \<noteq> Blocks v) \<longrightarrow>
        semaphore (state_of r) = semaphore w \<and> limit (state_of r) = limit w)"
  "(\<forall>r. onFinish fuel c' w' = Some r \<longrightarrow> int (semaphore w') \<le> limit w' \<longrightarrow>
        (\<forall>v. r \<noteq> Blocks v) \<longrightarrow>
        semaphore (state_of r) = semaphore w' \<and> limit (state_of r) = limit w')"
proof (induction fuel c cfg w and fuel c' w' rule: run_onFinish.induct)
  case (1 fuel c cfg w)
  show ?case
  proof (intro allI impI)
    fix r
    assume r: "run fuel c cfg w = Some r" and s: "int (semaphore w) \<le> limit w"
      and nb: "\<forall>v. r \<noteq> Blocks v"
    show "semaphore (state_of r) = semaphore w \<and> limit (state_of r) = limit w"
    proof (cases "acquire w")
      case None
      with r have "r = Blocks w" by (simp add: run.simps)
      with nb show ?thesis by blast
    next
      case (Some w1)
      from acquire_frame[OF Some]
      have a: "Suc (semaphore w1) = semaphore w" "limit w1 = limit w" by (simp_all add: fixed_def)
      show ?thesis
      proof (cases "dispatch fuel c cfg w1")
        case None
        with r Some show ?thesis by (simp add: run.simps)
      next
        case d: (Some r1)
        from dispatch_result[OF d]
        have b: "semaphore (state_of r1) = semaphore w1" "limit (state_of r1) = limit w1"
          by (simp_all add: fixed_def)
        show ?thesis
        proof (cases r1)
          case (Returns w2)
          with b a s have lt: "int (semaphore w2) < limit w2" by simp
          from r Some d Returns have "r = finally_release None w2" by (simp add: run.simps)
          with finally_release_gate[OF lt, of None] a b Returns show ?thesis
            by (simp add: emit_def)
        next
          case (Blocks w2)
          with dispatch_result[OF d] show ?thesis by simp
        next
          case (Raises e w2)
          show ?thesis
          proof (cases "onFinish fuel c w2")
            case None
            with r Some d Raises show ?thesis by (simp add: run.simps)
          next
            case f: (Some r2)
            from r Some d Raises f nb have nb2: "\<forall>v. r2 \<noteq> Blocks v"
              by (cases r2) (auto simp: run.simps)
            from b a s Raises have le: "int (semaphore w2) \<le> limit w2" by simp
            from "1.IH"[OF Some d Raises] f le nb2
            have g: "semaphore (state_of r2) = semaphore w2" "limit (state_of r2) = limit w2"
              by simp_all
            with b a s Raises have lt: "int (semaphore (state_of r2)) < limit (state_of r2)"
              by simp
            from r Some d Raises f nb2
            obtain x where "r = finally_release (Some x) (state_of r2)"
              by (cases r2) (auto simp: run.simps)
            with finally_release_gate[OF lt, of "Some x"] g a b Raises show ?thesis
              by (simp add: emit_def)
          qed
        qed
      qed
    qed
  qed
next
  case (2 fuel c w)
  show ?case
  proof (intro allI impI)
    fix r
    assume r: "onFinish fuel c w = Some r" and s: "int (semaphore w) \<le> limit w"
      and nb: "\<forall>v. r \<noteq> Blocks v"
    define k where "k = kick 0 c None (emit (OnFinish c) w)"
    from kick_frame[of "emit (OnFinish c) w" 0 c None]
    have kf: "semaphore (snd k) = semaphore w" "limit (snd k) = limit w"
      "waitingCommands (snd k) = waitingCommands w"
      by (simp_all add: k_def fixed_def emit_def)
    show "semaphore (state_of r) = semaphore w \<and> limit (state_of r) = limit w"
    proof (cases "waitingCommands w = []")
      case True
      with r have "r = Returns (snd k)" by (simp add: onFinish_unfold k_def)
      with kf show ?thesis by simp
    next
      case False
      let ?c = "last (waitingCommands w)"
      let ?w = "(snd k)\<lparr>waitingCommands := butlast (waitingCommands w)\<rparr>"
      from False r have rr: "run fuel ?c (fst k) ?w = Some r"
        by (simp add: onFinish_unfold k_def)
      from "2.IH"[OF k_def refl refl] False kf rr s nb show ?thesis by simp
    qed
  qed
qed

lemma run_comes_back:
  assumes s: "int (semaphore w) \<le> limit w"
    and a: "acquire w = Some w1"
    and d: "dispatch fuel c cfg w1 = Some (Raises e w2)"
    and f: "onFinish fuel c w2 = Some r2"
  shows "case r2 of
           Returns w3 \<Rightarrow> run fuel c cfg w =
             Some (Raises e (emit Release (w3\<lparr>semaphore := semaphore w\<rparr>)))
         | Raises e' w3 \<Rightarrow> run fuel c cfg w =
             Some (Raises e' (emit Release (w3\<lparr>semaphore := semaphore w\<rparr>)))
         | Blocks w3 \<Rightarrow> run fuel c cfg w = Some (Blocks w3)"
proof (cases r2)
  case (Blocks w3)
  with a d f show ?thesis by (simp add: run.simps)
next
  case (Returns w3)
  from acquire_frame[OF a] dispatch_result[OF d] s
  have le: "int (semaphore w2) \<le> limit w2" and e: "Suc (semaphore w2) = semaphore w"
    "limit w2 = limit w"
    by (simp_all add: fixed_def)
  from gate_restored(2)[of fuel c w2] f le Returns
  have g: "semaphore w3 = semaphore w2" "limit w3 = limit w2" by simp_all
  with e s have lt: "int (semaphore w3) < limit w3" by simp
  from a d f Returns have "run fuel c cfg w = Some (finally_release (Some e) w3)"
    by (simp add: run.simps)
  with finally_release_gate[OF lt, of "Some e"] g e Returns show ?thesis
    by (simp add: emit_def)
next
  case (Raises e' w3)
  from acquire_frame[OF a] dispatch_result[OF d] s
  have le: "int (semaphore w2) \<le> limit w2" and e: "Suc (semaphore w2) = semaphore w"
    "limit w2 = limit w"
    by (simp_all add: fixed_def)
  from gate_restored(2)[of fuel c w2] f le Raises
  have g: "semaphore w3 = semaphore w2" "limit w3 = limit w2" by simp_all
  with e s have lt: "int (semaphore w3) < limit w3" by simp
  from a d f Raises have "run fuel c cfg w = Some (finally_release (Some e') w3)"
    by (simp add: run.simps)
  with finally_release_gate[OF lt, of "Some e'"] g e Raises show ?thesis
    by (simp add: emit_def)
qed


section \<open>The executor thread\<close>

text \<open>When some call of \<^verbatim>\<open>isRunning()\<close> answers \<^verbatim>\<open>False\<close>, the polling loop stops at the first
  such call; \<open>run_executes\<close> then gives the whole trace of \<^verbatim>\<open>RunningCommand.run\<close>: the
  command is executed a second time exactly when the first call failed and \<^verbatim>\<open>debug\<close> is off,
  and the callback is called once, last.\<close>

lemma poll_first:
  "\<not> running n \<Longrightarrow> k \<le> n \<Longrightarrow>
   \<exists>m. poll running k = Some m \<and> k \<le> m \<and> m \<le> n \<and> \<not> running m \<and>
       (\<forall>j. k \<le> j \<and> j < m \<longrightarrow> running j)"
proof (induction "n - k" arbitrary: k)
  case 0
  then have "k = n" by simp
  with "0.prems" show ?case by (subst poll.simps) auto
next
  case (Suc d)
  show ?case
  proof (cases "running k")
    case False
    with Suc.prems show ?thesis by (subst poll.simps) auto
  next
    case True
    from Suc.hyps(2) Suc.prems have "d = n - (k + 1)" "k + 1 \<le> n" by simp_all
    from Suc.hyps(1)[OF this(1) Suc.prems(1) this(2)]
    obtain m where m: "poll running (k + 1) = Some m" "k + 1 \<le> m" "m \<le> n" "\<not> running m"
      "\<forall>j. k + 1 \<le> j \<and> j < m \<longrightarrow> running j" by blast
    have "\<forall>j. k \<le> j \<and> j < m \<longrightarrow> running j"
    proof (intro allI impI)
      fix j assume "k \<le> j \<and> j < m"
      then show "running j" using m(5) True by (cases "j = k") auto
    qed
    with m True show ?thesis by (subst poll.simps) auto
  qed
qed

lemma count_list_polls [simp]:
  "count_list (concat (replicate n [Poll, Nap])) Execute = 0"
  "count_list (concat (replicate n [Poll, Nap])) Callback = 0"
  by (induction n) auto

lemma run_executes:
  assumes "\<not> isRunning b n" and "callback c w = Some r"
  shows "\<exists>m res. RunningCommand_run dbg b c callback w =
           Some ((if execute b 0 \<noteq> None \<and> \<not> dbg then [Execute, Execute] else [Execute]) @
                 concat (replicate m [Poll, Nap]) @ [Poll, Callback], res) \<and>
           \<not> isRunning b m \<and> (\<forall>j<m. isRunning b j) \<and> state_of res = state_of r"
proof -
  from poll_first[of "isRunning b" n 0] assms(1)
  obtain m where m: "poll (isRunning b) 0 = Some m" "\<not> isRunning b m"
    "\<forall>j<m. isRunning b j" by auto
  show ?thesis
    using m assms(2)
    by (cases r; cases "execute b 0")
       (auto simp: RunningCommand_run_def Let_def split: option.splits)
qed

section \<open>Strings\<close>

lemma find_at_sublist: "0 \<le> i \<Longrightarrow> find_at sub s i \<noteq> - 1 \<longleftrightarrow> sublist sub s"
proof (induction s arbitrary: i)
  case Nil
  then show ?case by auto
next
  case (Cons x xs)
  from Cons.prems have "0 \<le> i + 1" by simp
  from Cons.IH[OF this] Cons.prems show ?case
    by (auto simp: sublist_Cons_right)
qed

lemma str_find_sublist: "str_find s sub \<noteq> - 1 \<longleftrightarrow> sublist sub s"
  by (simp add: str_find_def find_at_sublist)

lemma too_many_iff: "too_many e \<longleftrightarrow> sublist ''too many connections'' (lower (str e))"
  by (simp add: too_many_def str_find_sublist)

lemma lower_pat: "lower ''too many connections'' = ''too many connections''"
  by (simp add: lower_def lower_char_def)

section \<open>Evaluation on concrete pools\<close>

lemmas pool_eval =
  addCommand_def run.simps onFinish.simps kick.simps acquire_def release_def
  finally_release_def dispatch_def fillConnection_def call_factory_def getitem_def
  emit_def addConnection_def waitCommand_def pool_of_def fresh_def
  one_each_def failing_def giving_def once_def Let_def

section \<open>The claims\<close>




text \<open>
  \<^bold>\<open>C2\<close>, at the input where the source departs from it. With \<^verbatim>\<open>debug\<close> on, a command whose
  first \<^verbatim>\<open>execute()\<close> fails is not executed a second time: \<^verbatim>\<open>self._debugPrint(e)\<close> raises
  \<^verbatim>\<open>TypeError\<close> inside the \<^verbatim>\<open>except\<close> clause, before the retry. The thread polls
  \<^verbatim>\<open>isRunning()\<close> until it is false, calls \<^verbatim>\<open>onFinish\<close> once and ends with the
  \<^verbatim>\<open>TypeError\<close>. (Here the second \<^verbatim>\<open>execute()\<close> would have succeeded.)
\<close>

theorem C2_debug_skips_retry:
  "RunningCommand_run True
     \<lparr>execute = (\<lambda>k. if k = 0 then Some (Exception ''timed out'') else None),
      isRunning = (\<lambda>k. k < 2)\<rparr>
     7 (\<lambda>c w. Some (Returns (c # w))) [] =
   Some ([Execute, Poll, Nap, Poll, Nap, Poll, Callback], Raises TypeError [7])"
proof -
  have "poll (\<lambda>k. k < 2) 0 = Some (2::nat)" by code_simp
  then show ?thesis
    by (simp add: RunningCommand_run_def numeral_2_eq_2)
qed







text \<open>
  \<^bold>\<open>C5.\<close> \<^verbatim>\<open>fillConnection\<close> tries to create a batch only when
  \<^verbatim>\<open>len(connections) <= limit\<close>: one call never takes the connection list beyond
  \<open>limit + 1\<close> batches (or beyond the length it already had), and when the list is already
  longer than \<open>limit\<close> the call returns the pool as it was, so the connection list, the free
  set and the factory are untouched.
\<close>

theorem C5_fill_bounded:
  "int (length (connections (state_of (fillConnection cfg w))))
     \<le> max (int (length (connections w))) (limit w + 1) \<and>
   (limit w < int (length (connections w)) \<longrightarrow> fillConnection cfg w = Returns w)"
  by (auto simp: fillConnection_def call_factory_def emit_def addConnection_def Let_def
           split: sum.splits option.splits prod.splits)

theorem C5_fill_bounded_witness:
  "limit (addConnection [8] (addConnection [7] (pool_of 1 one_each)))
     < int (length (connections (addConnection [8] (addConnection [7] (pool_of 1 one_each))))) \<and>
   fillConnection None (addConnection [8] (addConnection [7] (pool_of 1 one_each)))
     = Returns (addConnection [8] (addConnection [7] (pool_of 1 one_each)))"
  using C5_fill_bounded [of None "addConnection [8] (addConnection [7] (pool_of 1 one_each))"]
  by (simp add: addConnection_def pool_of_def fresh_def)

text \<open>
  \<^bold>\<open>C6\<close>, as stated, at an explicit input. The factory fails with the text
  \<^verbatim>\<open>Too many connections\<close>, which does not contain the substring
  \<^verbatim>\<open>too many connections\<close>; the claim says that \<^verbatim>\<open>fillConnection\<close> re-raises such an error,
  but the source lower-cases the text before searching, and the call backs off and returns.
\<close>

theorem C6_counterexample:
  "call_factory None (pool_of 1 (failing ''Too many connections''))
     = (Inl (Exception ''Too many connections''),
        (pool_of 1 (failing ''Too many connections''))\<lparr>factoryCalls := 1\<rparr>) \<and>
   \<not> sublist ''too many connections'' (str (Exception ''Too many connections'')) \<and>
   fillConnection None (pool_of 1 (failing ''Too many connections''))
     \<noteq> Raises (Exception ''Too many connections'')
          ((pool_of 1 (failing ''Too many connections''))\<lparr>factoryCalls := 1\<rparr>)"
proof -
  have "\<not> sublist ''too many connections'' ''Too many connections''"
    by code_simp
  moreover have "too_many (Exception ''Too many connections'')"
    unfolding too_many_iff by code_simp
  ultimately show ?thesis
    by (simp add: fillConnection_def call_factory_def pool_of_def fresh_def failing_def)
qed

text \<open>
  \<^bold>\<open>C6\<close>, amended. When the loader or the factory fails inside \<^verbatim>\<open>fillConnection\<close>: if the
  lower-cased text of the error contains \<^verbatim>\<open>too many connections\<close>, the call sleeps 1.5 time
  units and returns normally, with the connection list and the free set as they were; for
  every other error it re-raises that error, again with both lists as they were.
\<close>

theorem C6_factory_failure:
  assumes "int (length (connections w)) \<le> limit w"
    and "call_factory cfg w = (Inl e, w1)"
  shows "connections w1 = connections w \<and> freeConnections w1 = freeConnections w \<and>
         (if sublist ''too many connections'' (lower (str e))
          then fillConnection cfg w = Returns (emit (Sleep 15) w1) \<and>
               connections (emit (Sleep 15) w1) = connections w \<and>
               freeConnections (emit (Sleep 15) w1) = freeConnections w
          else fillConnection cfg w = Raises e w1)"
  using assms
  by (auto simp: fillConnection_def too_many_iff emit_def call_factory_def
           split: sum.splits)

theorem C6_factory_failure_witness:
  "fillConnection None (pool_of 1 (failing ''421 Too Many Connections''))
     = Returns (emit (Sleep 15)
         ((pool_of 1 (failing ''421 Too Many Connections''))\<lparr>factoryCalls := 1\<rparr>)) \<and>
   fillConnection None (pool_of 1 (failing ''530 Login incorrect''))
     = Raises (Exception ''530 Login incorrect'')
         ((pool_of 1 (failing ''530 Login incorrect''))\<lparr>factoryCalls := 1\<rparr>)"
proof -
  let ?a = "pool_of 1 (failing ''421 Too Many Connections'')"
  let ?b = "pool_of 1 (failing ''530 Login incorrect'')"
  have la: "int (length (connections ?a)) \<le> limit ?a"
    and lb: "int (length (connections ?b)) \<le> limit ?b"
    by (simp_all add: pool_of_def fresh_def)
  have ca: "call_factory None ?a = (Inl (Exception ''421 Too Many Connections''), ?a\<lparr>factoryCalls := 1\<rparr>)"
    and cb: "call_factory None ?b = (Inl (Exception ''530 Login incorrect''), ?b\<lparr>factoryCalls := 1\<rparr>)"
    by (simp_all add: call_factory_def pool_of_def fresh_def failing_def)
  have sa: "sublist ''too many connections'' (lower (str (Exception ''421 Too Many Connections'')))"
    by code_simp
  have sb: "\<not> sublist ''too many connections'' (lower (str (Exception ''530 Login incorrect'')))"
    by code_simp
  from C6_factory_failure [OF la ca] C6_factory_failure [OF lb cb] sa sb
  show ?thesis by simp
qed

text \<open>
  \<^bold>\<open>C7\<close>, at the input where the source departs from it. A pool with \<open>limit = 1\<close> whose
  factory opens a connection at its first call and fails afterwards; command 1 runs, commands
  2 and 3 wait. When the thread of command 1 finishes, \<^verbatim>\<open>__onFinish\<close> dispatches command 3;
  \<^verbatim>\<open>__run\<close> acquires the semaphore, the factory fails, and the \<^verbatim>\<open>except\<close> clause calls
  \<^verbatim>\<open>__onFinish\<close> for command 3, which dispatches command 2 while the semaphore is still
  held: the inner \<^verbatim>\<open>acquire()\<close> blocks for ever. The exception is not re-raised and the
  semaphore is never released.
\<close>

theorem C7_nested_dispatch_blocks:
  "(case exec 1 [AddCommand 1 None, AddCommand 2 None, AddCommand 3 None]
           (pool_of 1 (once ''boom''), []) of
      None \<Rightarrow> False
    | Some (w, fin) \<Rightarrow>
        semaphore w = 1 \<and> map cmd_command (commands w) = [1] \<and> waitingCommands w = [2, 3] \<and>
        (case onFinish 1 1 w of
           Some (Blocks w') \<Rightarrow>
             semaphore w' = 0 \<and> commands w' = [] \<and> waitingCommands w' = [] \<and>
             effects w' = effects w @ [OnFinish 1, Acquire, OnFinish 3]
         | _ \<Rightarrow> False))"
  by code_simp

text \<open>
  \<^bold>\<open>C8.\<close> \<^verbatim>\<open>isEmpty()\<close> is true exactly when the running-command list and the wait queue
  are both empty. After an \<^verbatim>\<open>addCommand\<close> that returns normally it is false, the command being
  recorded as running or sitting in the wait queue. When the only running command finishes
  and nothing waits, the finish callback removes its record and \<^verbatim>\<open>isEmpty()\<close> is true again.
\<close>

theorem C8_isEmpty:
  "(isEmpty w \<longleftrightarrow> commands w = [] \<and> waitingCommands w = []) \<and>
   (\<forall>w'. addCommand fuel c cfg w = Some (Returns w') \<longrightarrow>
      \<not> isEmpty w' \<and>
      (c \<in> cmd_command ` set (commands w') \<or> c \<in> set (waitingCommands w'))) \<and>
   (\<forall>p. commands w = [p] \<and> cmd_command p = c \<and> waitingCommands w = [] \<longrightarrow>
      (\<exists>w'. onFinish fuel c w = Some (Returns w') \<and> isEmpty w'))"
proof (intro conjI allI impI)
  show "isEmpty w \<longleftrightarrow> commands w = [] \<and> waitingCommands w = []"
    by (simp add: isEmpty_def)
next
  fix w' assume a: "addCommand fuel c cfg w = Some (Returns w')"
  have "c \<in> cmd_command ` set (commands w') \<or> c \<in> set (waitingCommands w')"
  proof (cases "limit w \<le> int (length (commands w))")
    case True
    with a show ?thesis by (auto simp: addCommand_def waitCommand_def)
  next
    case False
    with a have "run fuel c cfg w = Some (Returns w')" by (simp add: addCommand_def)
    from run_Returns_record[OF this] show ?thesis by force
  qed
  then show "\<not> isEmpty w'" "c \<in> cmd_command ` set (commands w') \<or> c \<in> set (waitingCommands w')"
    by (auto simp: isEmpty_def)
next
  fix p assume p: "commands w = [p] \<and> cmd_command p = c \<and> waitingCommands w = []"
  let ?w = "emit (OnFinish c) w"
  have c: "commands ?w = [p]" "waitingCommands ?w = []" using p by (simp_all add: emit_def)
  have k1: "kick 0 c None ?w = kick 1 c (cmd_config p)
      (?w\<lparr>freeConnections := freeConnections ?w @ [cmd_index p], commands := []\<rparr>)"
    using kick_match[of 0 ?w c None] c p by simp
  have k: "kick 0 c None ?w =
      (cmd_config p, ?w\<lparr>freeConnections := freeConnections ?w @ [cmd_index p], commands := []\<rparr>)"
    unfolding k1 by (rule kick_stop) simp
  show "\<exists>w'. onFinish fuel c w = Some (Returns w') \<and> isEmpty w'"
    by (subst onFinish.simps) (simp add: k Let_def isEmpty_def c)
qed


theorem C8_isEmpty_witness:
  "\<exists>w1 w2. addCommand 1 7 None (pool_of 1 one_each) = Some (Returns w1) \<and> \<not> isEmpty w1 \<and>
     onFinish 1 7 w1 = Some (Returns w2) \<and> isEmpty w2"
proof -
  obtain w1 where a: "addCommand 1 7 None (pool_of 1 one_each) = Some (Returns w1)"
    and c: "commands w1 = [\<lparr>cmd_command = 7, cmd_config = None, cmd_index = 1, cmd_threadId = 1\<rparr>]"
    and q: "waitingCommands w1 = []"
    by (simp add: pool_eval)
  from C8_isEmpty [where w = w1 and c = 7 and fuel = 1] c q
  obtain w2 where f: "onFinish 1 7 w1 = Some (Returns w2)" "isEmpty w2"
    by auto
  from C8_isEmpty [where w = "pool_of 1 one_each" and fuel = 1 and c = 7 and cfg = None] a have "\<not> isEmpty w1" by blast
  with a f show ?thesis by blast
qed



text \<open>
  \<^bold>\<open>C10.\<close> When the finish callback is called for a command that has no pending record,
  the scan leaves the running-command list and the free set as they were and yields no
  configuration; if the wait queue is not empty, its last command is still popped and
  dispatched through \<^verbatim>\<open>__run\<close>, with \<^verbatim>\<open>None\<close> as configuration.
\<close>

theorem C10_finish_without_record:
  assumes "\<forall>p\<in>set (commands w). cmd_command p \<noteq> c"
  shows "kick 0 c None (emit (OnFinish c) w) = (None, emit (OnFinish c) w) \<and>
         commands (emit (OnFinish c) w) = commands w \<and>
         freeConnections (emit (OnFinish c) w) = freeConnections w \<and>
         onFinish fuel c w =
           (if waitingCommands w = [] then Some (Returns (emit (OnFinish c) w))
            else run fuel (last (waitingCommands w)) None
                   ((emit (OnFinish c) w)\<lparr>waitingCommands := butlast (waitingCommands w)\<rparr>))"
proof -
  have k: "kick 0 c None (emit (OnFinish c) w) = (None, emit (OnFinish c) w)"
    by (rule kick_no_match) (use assms in \<open>auto simp: emit_def\<close>)
  show ?thesis
    unfolding onFinish_unfold k by (simp add: emit_def)
qed


theorem C10_finish_without_record_witness:
  "\<exists>w3. exec 1 [AddCommand 7 (Some 5), AddCommand 8 None, AddCommand 9 None]
           (pool_of 1 one_each, []) = Some (w3, []) \<and>
     map cmd_command (commands w3) = [7] \<and>
     onFinish 1 4 w3 =
       run 1 9 None ((emit (OnFinish 4) w3)\<lparr>waitingCommands := [8]\<rparr>)"
proof -
  have "\<exists>w3. exec 1 [AddCommand 7 (Some 5), AddCommand 8 None, AddCommand 9 None]
           (pool_of 1 one_each, []) = Some (w3, []) \<and>
      waitingCommands w3 = [8, 9] \<and> map cmd_command (commands w3) = [7]"
    by (simp add: pool_eval)
  then obtain w3 where x: "exec 1 [AddCommand 7 (Some 5), AddCommand 8 None, AddCommand 9 None]
           (pool_of 1 one_each, []) = Some (w3, [])"
    and q: "waitingCommands w3 = [8, 9]"
    and c: "map cmd_command (commands w3) = [7]"
    by (elim exE conjE)
  have "cmd_command ` set (commands w3) = {7}"
    using arg_cong[OF c, of set] by simp
  then have n: "\<forall>p\<in>set (commands w3). cmd_command p \<noteq> 4"
    by (metis image_eqI singletonD numeral_eq_iff semiring_norm(88))
  note r = C10_finish_without_record [OF n, of 1, THEN conjunct2, THEN conjunct2, THEN conjunct2]
  have "onFinish 1 4 w3 = run 1 9 None ((emit (OnFinish 4) w3)\<lparr>waitingCommands := [8]\<rparr>)"
    unfolding r using q by simp
  with x c show ?thesis by (intro exI[of _ w3] conjI)
qed

end
